theory Spec2Isabelle
  imports Main "HOL-Library.Multiset"
begin

section \<open>go-logrotate: the rotation and retention engine of logrotate.go\<close>

text \<open>
  A shallow embedding of \<^verbatim>\<open>logrotate.go\<close>. The Logger's fields are a record, the
  directory of the log file is a list of entries, the operating-system calls can fail (also
  where the source does not look at the error: the deferred \<^verbatim>\<open>os.Remove\<close> and the
  files under \<^verbatim>\<open>/tmp\<close>), and each method returns the updated Logger and world next to
  its result.

  Conventions.
  \<^item> Go's \<^verbatim>\<open>int\<close> and \<^verbatim>\<open>int64\<close> are 64 bits wide. They are HOL integers, and
    every addition, negation and multiplication of the source is wrapped by \<open>wrap64\<close>.
  \<^item> A \<^verbatim>\<open>time.Time\<close> is the integer number of nanoseconds since a fixed epoch,
    \<^verbatim>\<open>Before\<close> and \<^verbatim>\<open>After\<close> are \<open><\<close> and \<open>>\<close>.
  \<^item> The world holds the entries of \<^verbatim>\<open>l.dir()\<close> only. A path
    \<^verbatim>\<open>filepath.Join(l.dir(), n)\<close> is represented by its last element \<open>n\<close>.
\<close>

subsection \<open>Strings, numbers and paths (Go's standard library)\<close>

definition compressSuffix :: string where
  "compressSuffix = ''.gz''"

definition defaultMaxSize :: int where
  "defaultMaxSize = 100"

text \<open>\<^verbatim>\<open>megabyte\<close> is a package variable that only the tests change.\<close>

definition megabyte :: int where
  "megabyte = 1024 * 1024"

definition wrap64 :: "int \<Rightarrow> int" where
  "wrap64 x = (x + 2 ^ 63) mod 2 ^ 64 - 2 ^ 63"

definition HasPrefix :: "string \<Rightarrow> string \<Rightarrow> bool" where
  "HasPrefix s p = (take (length p) s = p)"

definition HasSuffix :: "string \<Rightarrow> string \<Rightarrow> bool" where
  "HasSuffix s x = (length x \<le> length s \<and> drop (length s - length x) s = x)"

definition TrimPrefix :: "string \<Rightarrow> string \<Rightarrow> string" where
  "TrimPrefix s p = (if HasPrefix s p then drop (length p) s else s)"

definition TrimSuffix :: "string \<Rightarrow> string \<Rightarrow> string" where
  "TrimSuffix s x = (if HasSuffix s x then take (length s - length x) s else s)"

text \<open>The slice expression \<^verbatim>\<open>s[a:b]\<close>; \<open>None\<close> is the run-time panic.\<close>

definition slice :: "string \<Rightarrow> nat \<Rightarrow> nat \<Rightarrow> string option" where
  "slice s a b = (if a \<le> b \<and> b \<le> length s then Some (take (b - a) (drop a s)) else None)"

definition IsPathSeparator :: "char \<Rightarrow> bool" where
  "IsPathSeparator c = (c = CHR ''/'')"

text \<open>
  \<^verbatim>\<open>filepath.Ext\<close>: the suffix beginning at the final dot in the final element of the
  path, empty if there is no dot.
\<close>

definition Ext :: "string \<Rightarrow> string" where
  "Ext path =
     (let r = takeWhile (\<lambda>c. \<not> IsPathSeparator c) (rev path)
      in if CHR ''.'' \<in> set r then CHR ''.'' # rev (takeWhile (\<lambda>c. c \<noteq> CHR ''.'') r)
         else [])"

text \<open>
  \<^verbatim>\<open>filepath.Base\<close>: the last element of the path, trailing separators removed first;
  \<^verbatim>\<open>"."\<close> for the empty path and \<^verbatim>\<open>"/"\<close> for a path of separators only.
\<close>

definition Base :: "string \<Rightarrow> string" where
  "Base path =
     (if path = [] then ''.''
      else let p = dropWhile IsPathSeparator (rev path);
               e = rev (takeWhile (\<lambda>c. \<not> IsPathSeparator c) p)
           in if e = [] then ''/'' else e)"

text \<open>
  \<^verbatim>\<open>strconv.Atoi\<close> for a 64-bit \<^verbatim>\<open>int\<close>: an optional sign, then one or more decimal
  digits, and the value must fit; anything else is an error (\<open>None\<close>).
\<close>

definition digit_val :: "char \<Rightarrow> int option" where
  "digit_val c =
     (let k = (of_char c :: int) in if 48 \<le> k \<and> k \<le> 57 then Some (k - 48) else None)"

fun digits_val :: "string \<Rightarrow> int \<Rightarrow> int option" where
  "digits_val [] acc = Some acc"
| "digits_val (c # cs) acc =
     (case digit_val c of None \<Rightarrow> None | Some d \<Rightarrow> digits_val cs (acc * 10 + d))"

definition Atoi :: "string \<Rightarrow> int option" where
  "Atoi s =
     (let neg = (s \<noteq> [] \<and> hd s = CHR ''-'');
          ds = (if s \<noteq> [] \<and> (hd s = CHR ''-'' \<or> hd s = CHR ''+'') then tl s else s)
      in if ds = [] then None
         else case digits_val ds 0 of
                None \<Rightarrow> None
              | Some n \<Rightarrow>
                  (let v = (if neg then - n else n)
                   in if - (2 ^ 63) \<le> v \<and> v < 2 ^ 63 then Some v else None))"

text \<open>The verb \<^verbatim>\<open>%d\<close> of \<^verbatim>\<open>fmt.Sprintf\<close>.\<close>

definition digit_char :: "int \<Rightarrow> char" where
  "digit_char d = char_of (48 + d)"

function digits_of :: "int \<Rightarrow> string" where
  "digits_of n = (if n < 10 then [digit_char n] else digits_of (n div 10) @ [digit_char (n mod 10)])"
  by pat_completeness auto
termination
  by (relation "measure nat") auto

declare digits_of.simps [simp del]

definition fmt_d :: "int \<Rightarrow> string" where
  "fmt_d i = (if i < 0 then CHR ''-'' # digits_of (- i) else digits_of i)"

subsection \<open>The data model\<close>

type_synonym time = int

datatype oscall =
    MkdirAll
  | Stat string
  | Rename string string
  | Chtimes string
  | Chown string
  | OpenTrunc string
  | OpenAppend string
  | CloseFile string
  | ReadDir
  | Info string
  | TimesStat string
  | Remove string
  | OpenRead string
  | Copy string
  | GzClose string
  | FileWrite string
  | OpenTmp string
  | WriteTmp string string

datatype error =
    WriteTooLong int int
  | CantMakeDirs
  | CantRename
  | CantOpenNew
  | CantStatLog
  | CantReadDir
  | OsError oscall
  | MismatchedPrefix
  | MismatchedExtension
  | MismatchedOrder
  | ParseError
  | PanicSliceBounds
  | FailedOpenLog
  | FailedStatLog
  | FailedChown
  | FailedOpenCompressed
  | FailedCompress oscall
  | NotExist
  | ErrInvalid
  | ShortWrite

text \<open>
  One entry of the log directory: its name, whether it is a directory, its modification
  time and its bytes.
\<close>

record dirent =
  ename :: string
  eIsDir :: bool
  eModTime :: time
  eData :: string

text \<open>
  The world outside the Logger.
  \<^item> \<open>entries\<close>: the log directory, in the order \<^verbatim>\<open>os.ReadDir\<close> returns it.
  \<^item> \<open>now\<close>: the reading of \<^verbatim>\<open>currentTime()\<close>.
  \<^item> \<open>fails\<close>: the operating-system calls that return an error although their file
    exists (a call on a missing file fails in any case).
  \<^item> \<open>shortWrite\<close>: \<open>Some k\<close> when \<^verbatim>\<open>l.file.Write\<close> stops after \<open>k\<close> bytes with an error.
  \<^item> \<open>timeParse\<close>, \<open>timeFormat\<close>: \<^verbatim>\<open>time.Parse(layout, value)\<close> and
    \<^verbatim>\<open>t.Format(layout)\<close> (the flag says local time rather than UTC); \<open>gzip\<close>: the
    bytes \<^verbatim>\<open>gzip.Writer\<close> produces. The three are library functions, left open.
  \<^item> \<open>processLog\<close>: the default path, \<^verbatim>\<open>os.TempDir()\<close> joined with the program name
    and \<^verbatim>\<open>.log\<close>.
  \<^item> \<open>solution\<close>, \<open>solution2\<close>, \<open>solution3\<close>: the lines of \<^verbatim>\<open>/tmp/solution.log\<close>,
    \<^verbatim>\<open>/tmp/solution2.log\<close> and \<^verbatim>\<open>/tmp/solution3.log\<close>.
\<close>

record world =
  entries :: "dirent list"
  now :: time
  fails :: "oscall \<Rightarrow> bool"
  shortWrite :: "nat option"
  timeParse :: "string \<Rightarrow> string \<Rightarrow> time option"
  timeFormat :: "bool \<Rightarrow> string \<Rightarrow> time \<Rightarrow> string"
  gzip :: "string \<Rightarrow> string"
  processLog :: string
  solution :: "string list"
  solution2 :: "string list"
  solution3 :: "string list"

text \<open>
  The Logger. \<open>l_file\<close> is the open handle (the name the file was opened under),
  \<open>l_millCh\<close> says that a request waits in the channel of capacity one. \<open>rotations\<close>
  is not a field of the source: it counts the calls of \<^verbatim>\<open>rotate()\<close>.
\<close>

record Logger =
  Filename :: string
  FilenameTimeFormat :: string
  MaxBytes :: int
  MaxAge :: int
  MaxBackups :: int
  LocalTime :: bool
  Compress :: bool
  l_size :: int
  l_file :: "string option"
  l_millCh :: bool
  rotations :: nat

record logInfo =
  timestamp :: time
  info :: dirent

definition Name :: "logInfo \<Rightarrow> string" where
  "Name f = ename (info f)"

subsection \<open>The directory\<close>

definition lookup :: "dirent list \<Rightarrow> string \<Rightarrow> dirent option" where
  "lookup es n = find (\<lambda>e. ename e = n) es"

definition names :: "world \<Rightarrow> string set" where
  "names w = set (map ename (entries w))"

definition removeEntry :: "string \<Rightarrow> dirent list \<Rightarrow> dirent list" where
  "removeEntry n es = filter (\<lambda>e. ename e \<noteq> n) es"

text \<open>Create the file or replace its bytes, as \<^verbatim>\<open>O_CREATE|O_TRUNC\<close> followed by writes does.\<close>

definition putFile :: "string \<Rightarrow> string \<Rightarrow> time \<Rightarrow> dirent list \<Rightarrow> dirent list" where
  "putFile n d t es =
     (if n \<in> set (map ename es)
      then map (\<lambda>e. if ename e = n then e\<lparr>eData := d, eModTime := t\<rparr> else e) es
      else es @ [\<lparr>ename = n, eIsDir = False, eModTime = t, eData = d\<rparr>])"

text \<open>\<^verbatim>\<open>os.Remove\<close> of a file of the log directory.\<close>

definition osRemove :: "string \<Rightarrow> world \<Rightarrow> error option \<times> world" where
  "osRemove n w =
     (if fails w (Remove n) \<or> lookup (entries w) n = None then (Some (OsError (Remove n)), w)
      else (None, w\<lparr>entries := removeEntry n (entries w)\<rparr>))"

subsection \<open>File names\<close>

definition filename :: "Logger \<Rightarrow> world \<Rightarrow> string" where
  "filename l w = (if Filename l \<noteq> [] then Filename l else processLog w)"

definition prefixAndExt :: "Logger \<Rightarrow> world \<Rightarrow> string \<times> string" where
  "prefixAndExt l w =
     (let fn = Base (filename l w)
      in if FilenameTimeFormat l \<noteq> []
         then (let ext = Ext fn in (take (length fn - length ext) fn @ ''-'', ext))
         else (fn, []))"

definition timeFromName :: "Logger \<Rightarrow> world \<Rightarrow> string \<Rightarrow> string \<Rightarrow> string \<Rightarrow> error + time" where
  "timeFromName l w fname prefix ext =
     (if \<not> HasPrefix fname prefix then Inl MismatchedPrefix
      else if \<not> HasSuffix fname ext then Inl MismatchedExtension
      else case slice fname (length prefix) (length fname - length ext) of
             None \<Rightarrow> Inl PanicSliceBounds
           | Some ts \<Rightarrow>
               (case timeParse w (FilenameTimeFormat l) ts of
                  None \<Rightarrow> Inl ParseError
                | Some t \<Rightarrow> Inr t))"

definition orderFromName :: "string \<Rightarrow> string \<Rightarrow> string \<Rightarrow> error + int" where
  "orderFromName fname prefix ext =
     (if \<not> HasPrefix fname prefix then Inl MismatchedPrefix
      else if \<not> HasSuffix fname ext then Inl MismatchedExtension
      else case (if ext \<noteq> [] then slice fname (length prefix) (length fname - length ext)
                 else Some (Ext fname)) of
             None \<Rightarrow> Inl PanicSliceBounds
           | Some strOrder \<Rightarrow>
               (case Atoi (TrimPrefix strOrder ''.'') of
                  None \<Rightarrow> Inl MismatchedOrder
                | Some order \<Rightarrow> Inr order))"

text \<open>\<^verbatim>\<open>max\<close>: the maximum size in bytes of the log file before rolling.\<close>

definition max_l :: "Logger \<Rightarrow> int \<Rightarrow> int" where
  "max_l l writeLen =
     (if MaxBytes l \<noteq> 0
      then (if MaxBytes l = - 1 then wrap64 (wrap64 (writeLen + l_size l) + 1) else MaxBytes l)
      else defaultMaxSize * megabyte)"

subsection \<open>The directory scan\<close>

text \<open>
  \<^verbatim>\<open>sort.Sort(byBirthTime(logFiles))\<close>, newest first: \<^verbatim>\<open>Less(i, j)\<close> is
  \<^verbatim>\<open>b[i].timestamp.After(b[j].timestamp)\<close>. The library promises no order among equal
  timestamps; here they keep the order of the directory.
\<close>

fun insertByBirthTime :: "logInfo \<Rightarrow> logInfo list \<Rightarrow> logInfo list" where
  "insertByBirthTime x [] = [x]"
| "insertByBirthTime x (y # ys) =
     (if timestamp y > timestamp x then y # insertByBirthTime x ys else x # y # ys)"

definition byBirthTime :: "logInfo list \<Rightarrow> logInfo list" where
  "byBirthTime fs = foldr insertByBirthTime fs []"

definition solutionLog :: string where
  "solutionLog = ''/tmp/solution.log''"

definition solution2Log :: string where
  "solution2Log = ''/tmp/solution2.log''"

definition solution3Log :: string where
  "solution3Log = ''/tmp/solution3.log''"

text \<open>
  The writes to the files under \<^verbatim>\<open>/tmp\<close>: \<^verbatim>\<open>fofo, _ := os.OpenFile(path, ...)\<close>, then
  one \<^verbatim>\<open>fofo.Write\<close> per name, and \<^verbatim>\<open>fofo.Close()\<close> when a write returns an error. When
  the open fails the handle is nil and every write fails; after a write that failed the
  file is closed and every later write fails. A write that fails adds nothing. The
  result is the lines of the file afterwards.
\<close>

definition tmpAppend :: "world \<Rightarrow> string \<Rightarrow> string list \<Rightarrow> string list \<Rightarrow> string list" where
  "tmpAppend w path ns ls =
     (if fails w (OpenTmp path) then ls
      else ls @ takeWhile (\<lambda>n. \<not> fails w (WriteTmp path n)) ns)"

text \<open>
  The loop of \<^verbatim>\<open>oldLogFiles\<close> over the entries. A panic of the slice expression in
  \<^verbatim>\<open>timeFromName\<close> is not an error value of the source: it ends the scan.
\<close>

fun scanDir ::
  "Logger \<Rightarrow> string \<Rightarrow> string \<Rightarrow> dirent list \<Rightarrow> logInfo list \<Rightarrow> world
     \<Rightarrow> (error + logInfo list) \<times> world" where
  "scanDir l prefix ext [] logFiles w = (Inr logFiles, w)"
| "scanDir l prefix ext (f # fs) logFiles w =
     (if eIsDir f then scanDir l prefix ext fs logFiles w
      else if fails w (Info (ename f)) then (Inl (OsError (Info (ename f))), w)
      else if FilenameTimeFormat l \<noteq> [] then
        (case timeFromName l w (ename f) prefix ext of
           Inr t \<Rightarrow> scanDir l prefix ext fs (logFiles @ [\<lparr>timestamp = t, info = f\<rparr>]) w
         | Inl e1 \<Rightarrow>
             if e1 = PanicSliceBounds then (Inl PanicSliceBounds, w)
             else (case timeFromName l w (ename f) prefix (ext @ compressSuffix) of
                     Inr t \<Rightarrow> scanDir l prefix ext fs (logFiles @ [\<lparr>timestamp = t, info = f\<rparr>]) w
                   | Inl e2 \<Rightarrow>
                       if e2 = PanicSliceBounds then (Inl PanicSliceBounds, w)
                       else scanDir l prefix ext fs logFiles
                              (w\<lparr>solution2 := tmpAppend w solution2Log [ename f] (solution2 w)\<rparr>)))
      else
        (case orderFromName (ename f) prefix ext of
           Inr order \<Rightarrow>
             if fails w (TimesStat (ename f)) then (Inl (OsError (TimesStat (ename f))), w)
             else scanDir l prefix ext fs (logFiles @ [\<lparr>timestamp = eModTime f, info = f\<rparr>]) w
         | Inl e1 \<Rightarrow>
             if e1 = PanicSliceBounds then (Inl PanicSliceBounds, w)
             else scanDir l prefix ext fs logFiles
                    (w\<lparr>solution2 := tmpAppend w solution2Log [ename f] (solution2 w)\<rparr>)))"

definition oldLogFiles :: "Logger \<Rightarrow> world \<Rightarrow> (error + logInfo list) \<times> world" where
  "oldLogFiles l w =
     (if fails w ReadDir then (Inl CantReadDir, w)
      else case prefixAndExt l w of
        (prefix, ext) \<Rightarrow>
          (case scanDir l prefix ext (entries w) [] w of
             (Inl e, w') \<Rightarrow> (Inl e, w')
           | (Inr logFiles, w') \<Rightarrow> (Inr (byBirthTime logFiles), w')))"

text \<open>
  What the scan decides for one name: \<open>accepts\<close> says that one of the attempts of the
  active naming mode returns a value, \<open>classified\<close> is the same with the prefix and the
  extension of this Logger.
\<close>

definition accepts :: "Logger \<Rightarrow> world \<Rightarrow> string \<Rightarrow> string \<Rightarrow> string \<Rightarrow> bool" where
  "accepts l w prefix ext n =
     (if FilenameTimeFormat l \<noteq> []
      then \<not> isl (timeFromName l w n prefix ext)
           \<or> \<not> isl (timeFromName l w n prefix (ext @ compressSuffix))
      else \<not> isl (orderFromName n prefix ext))"

definition classified :: "Logger \<Rightarrow> world \<Rightarrow> string \<Rightarrow> bool" where
  "classified l w n = (case prefixAndExt l w of (prefix, ext) \<Rightarrow> accepts l w prefix ext n)"

subsection \<open>Compression\<close>

text \<open>
  Modelled from the spec: \<^verbatim>\<open>chown\<close>, which \<^verbatim>\<open>logrotate.go\<close> calls and another file of
  the package defines. It propagates ownership; it can fail, and it changes neither the
  names nor the bytes in the directory.
\<close>

definition chown :: "string \<Rightarrow> world \<Rightarrow> error option" where
  "chown n w = (if fails w (Chown n) then Some (OsError (Chown n)) else None)"

definition isDirectory :: "world \<Rightarrow> string \<Rightarrow> bool" where
  "isDirectory w n = (case lookup (entries w) n of None \<Rightarrow> False | Some e \<Rightarrow> eIsDir e)"

text \<open>
  \<^verbatim>\<open>compressLogFile\<close>. The deferred function that runs when \<^verbatim>\<open>err\<close> is set is
  \<open>giveUp\<close>: it calls \<^verbatim>\<open>os.Remove(dst)\<close> and does not look at the result, so \<open>dst\<close>
  stays where that call fails. It is registered only after \<open>dst\<close> has been opened.
\<close>

definition giveUp :: "string \<Rightarrow> oscall \<Rightarrow> world \<Rightarrow> error option \<times> world" where
  "giveUp dst c w = (case osRemove dst w of (e, w') \<Rightarrow> (Some (FailedCompress c), w'))"

definition compressLogFile :: "string \<Rightarrow> string \<Rightarrow> world \<Rightarrow> error option \<times> world" where
  "compressLogFile src dst w =
     (case (if fails w (OpenRead src) then None else lookup (entries w) src) of
        None \<Rightarrow> (Some FailedOpenLog, w)
      | Some f \<Rightarrow>
          if fails w (Stat src) then (Some FailedStatLog, w)
          else if chown dst w \<noteq> None then (Some FailedChown, w)
          else if fails w (OpenTrunc dst) \<or> isDirectory w dst then (Some FailedOpenCompressed, w)
          else
            (let w1 = w\<lparr>entries := putFile dst [] (now w) (entries w)\<rparr>
             in if fails w (Copy src) \<or> eIsDir f then giveUp dst (Copy src) w1
                else if fails w (GzClose dst) then giveUp dst (GzClose dst) w1
                else if fails w (CloseFile dst) then giveUp dst (CloseFile dst) w1
                else
                  (let w2 = w\<lparr>entries := putFile dst (gzip w (eData f)) (now w) (entries w)\<rparr>
                   in if fails w (CloseFile src) then giveUp dst (CloseFile src) w2
                      else (case osRemove src w2 of
                              (Some e, w3) \<Rightarrow> giveUp dst (Remove src) w3
                            | (None, w3) \<Rightarrow> (None, w3)))))"

subsection \<open>The retention pass\<close>

text \<open>
  The loop of the count enforcement: \<open>preserved\<close> is the key set of the Go map,
  the result is \<open>(remaining, remove)\<close>.
\<close>

fun countLoop ::
  "int \<Rightarrow> logInfo list \<Rightarrow> string set \<Rightarrow> logInfo list \<Rightarrow> logInfo list
     \<Rightarrow> logInfo list \<times> logInfo list" where
  "countLoop mb [] preserved remaining remove = (remaining, remove)"
| "countLoop mb (f # fs) preserved remaining remove =
     (let fn = TrimSuffix (Name f) compressSuffix;
          preserved' = insert fn preserved
      in if int (card preserved') > mb
         then countLoop mb fs preserved' remaining (remove @ [f])
         else countLoop mb fs preserved' (remaining @ [f]) remove)"

text \<open>
  \<^verbatim>\<open>currentTime().Add(-1 * diff)\<close> with
  \<^verbatim>\<open>diff := time.Duration(int64(24*time.Hour) * int64(l.MaxAge))\<close>.
\<close>

definition cutoff :: "Logger \<Rightarrow> world \<Rightarrow> time" where
  "cutoff l w = now w + wrap64 (- 1 * wrap64 (86400000000000 * MaxAge l))"

fun removeLoop :: "logInfo list \<Rightarrow> error option \<Rightarrow> world \<Rightarrow> error option \<times> world" where
  "removeLoop [] err w = (err, w)"
| "removeLoop (f # fs) err w =
     (case osRemove (Name f) w of
        (errRemove, w') \<Rightarrow>
          removeLoop fs (if err = None \<and> errRemove \<noteq> None then errRemove else err) w')"

fun compressLoop :: "logInfo list \<Rightarrow> error option \<Rightarrow> world \<Rightarrow> error option \<times> world" where
  "compressLoop [] err w = (err, w)"
| "compressLoop (f # fs) err w =
     (case compressLogFile (Name f) (Name f @ compressSuffix) w of
        (errCompress, w') \<Rightarrow>
          compressLoop fs (if err = None \<and> errCompress \<noteq> None then errCompress else err) w')"

definition millRunOnce :: "Logger \<Rightarrow> world \<Rightarrow> error option \<times> world" where
  "millRunOnce l w =
     (if MaxBackups l = 0 \<and> MaxAge l = 0 \<and> \<not> Compress l then (None, w)
      else case oldLogFiles l w of
        (Inl e, w0) \<Rightarrow> (Some e, w0)
      | (Inr files, w0) \<Rightarrow>
          (let w1 = w0\<lparr>solution3 := tmpAppend w0 solution3Log (map Name files) (solution3 w0)\<rparr>;
               counted = (MaxBackups l > 0 \<and> MaxBackups l < int (length files));
               w2 = (if counted
                     then w1\<lparr>solution := tmpAppend w1 solutionLog (map Name files) (solution w1)\<rparr>
                     else w1);
               (files1, remove1) =
                 (if counted then countLoop (MaxBackups l) files {} [] [] else (files, []));
               (files2, remove2) =
                 (if MaxAge l > 0
                  then (filter (\<lambda>f. \<not> timestamp f < cutoff l w2) files1,
                        remove1 @ filter (\<lambda>f. timestamp f < cutoff l w2) files1)
                  else (files1, remove1));
               compress =
                 (if Compress l then filter (\<lambda>f. \<not> HasSuffix (Name f) compressSuffix) files2
                  else [])
           in case removeLoop remove2 None w2 of
                (err, w3) \<Rightarrow> compressLoop compress err w3))"

subsection \<open>The writer\<close>

text \<open>\<^verbatim>\<open>osStat\<close>: a missing file is \<open>NotExist\<close>, any other failure is the call's error.\<close>

definition osStat :: "string \<Rightarrow> world \<Rightarrow> error + dirent" where
  "osStat n w =
     (if fails w (Stat n) then Inl (OsError (Stat n))
      else case lookup (entries w) n of None \<Rightarrow> Inl NotExist | Some e \<Rightarrow> Inr e)"

text \<open>
  \<^verbatim>\<open>mill\<close>: a non-blocking send to the channel of capacity one; the goroutine that
  receives and runs \<^verbatim>\<open>millRunOnce\<close> is not part of the writer's state.
\<close>

definition mill :: "Logger \<Rightarrow> Logger" where
  "mill l = l\<lparr>l_millCh := True\<rparr>"

definition close :: "Logger \<Rightarrow> world \<Rightarrow> error option \<times> Logger" where
  "close l w =
     (case l_file l of
        None \<Rightarrow> (None, l)
      | Some h \<Rightarrow>
          ((if fails w (CloseFile h) then Some (OsError (CloseFile h)) else None),
           l\<lparr>l_file := None\<rparr>))"

text \<open>The loop of \<^verbatim>\<open>backupName\<close> over the old files; \<open>m\<close> is \<^verbatim>\<open>maxBackupOrder\<close>.\<close>

fun maxBackupOrder :: "string \<Rightarrow> string \<Rightarrow> logInfo list \<Rightarrow> int \<Rightarrow> int" where
  "maxBackupOrder prefix ext [] m = m"
| "maxBackupOrder prefix ext (f # fs) m =
     (if \<not> HasSuffix (Name f) compressSuffix
      then (case orderFromName (Name f) prefix ext of
              Inr order \<Rightarrow>
                if m < order then maxBackupOrder prefix ext fs order
                else maxBackupOrder prefix ext fs m
            | Inl e \<Rightarrow> maxBackupOrder prefix ext fs m)
      else maxBackupOrder prefix ext fs m)"

text \<open>
  \<^verbatim>\<open>backupName\<close>. The result stands for \<^verbatim>\<open>filepath.Join(dir, filename)\<close> with
  \<^verbatim>\<open>dir = filepath.Dir(name)\<close>, the log directory.
\<close>

definition backupName ::
  "Logger \<Rightarrow> world \<Rightarrow> string \<Rightarrow> string \<Rightarrow> bool \<Rightarrow> (error + string) \<times> world" where
  "backupName l w name nameTimeFormat local =
     (case prefixAndExt l w of
        (prefix, ext) \<Rightarrow>
          if nameTimeFormat \<noteq> []
          then (Inr (prefix @ timeFormat w local nameTimeFormat (now w) @ ext), w)
          else (case oldLogFiles l w of
                  (Inl e, w') \<Rightarrow> (Inl e, w')
                | (Inr oldFiles, w') \<Rightarrow>
                    (Inr (prefix @ ext @ ''.''
                            @ fmt_d (wrap64 (maxBackupOrder prefix ext oldFiles 0 + 1))), w')))"

text \<open>\<^verbatim>\<open>os.Rename\<close>: a file of the new name is replaced, a directory of that name is an error.\<close>

definition renameEntry :: "string \<Rightarrow> string \<Rightarrow> dirent list \<Rightarrow> dirent list" where
  "renameEntry old new es =
     (if old = new then es
      else map (\<lambda>e. if ename e = old then e\<lparr>ename := new\<rparr> else e) (removeEntry new es))"

definition setModTime :: "string \<Rightarrow> time \<Rightarrow> dirent list \<Rightarrow> dirent list" where
  "setModTime n t es = map (\<lambda>e. if ename e = n then e\<lparr>eModTime := t\<rparr> else e) es"

text \<open>
  The end of \<^verbatim>\<open>openNew\<close>: \<^verbatim>\<open>os.OpenFile(name, O_CREATE|O_WRONLY|O_TRUNC, mode)\<close>,
  then \<^verbatim>\<open>l.file = f\<close> and \<^verbatim>\<open>l.size = 0\<close>. The mode bits are not part of the model.
\<close>

definition openTruncated :: "string \<Rightarrow> Logger \<Rightarrow> world \<Rightarrow> error option \<times> Logger \<times> world" where
  "openTruncated name l w =
     (if fails w (OpenTrunc name) \<or> isDirectory w name then (Some CantOpenNew, l, w)
      else (None, l\<lparr>l_file := Some name, l_size := 0\<rparr>,
            w\<lparr>entries := putFile name [] (now w) (entries w)\<rparr>))"

definition openNew :: "Logger \<Rightarrow> world \<Rightarrow> error option \<times> Logger \<times> world" where
  "openNew l w =
     (if fails w MkdirAll then (Some CantMakeDirs, l, w)
      else
        (let name = Base (filename l w)
         in case osStat name w of
              Inl e \<Rightarrow> openTruncated name l w
            | Inr fi \<Rightarrow>
                (case backupName l w name (FilenameTimeFormat l) (LocalTime l) of
                   (Inl e, w1) \<Rightarrow> (Some e, l, w1)
                 | (Inr newname, w1) \<Rightarrow>
                     if fails w1 (Rename name newname) \<or> isDirectory w1 newname
                     then (Some CantRename, l, w1)
                     else
                       (let w2 = w1\<lparr>entries := renameEntry name newname (entries w1)\<rparr>
                        in if FilenameTimeFormat l = [] \<and> fails w2 (Chtimes newname)
                           then (Some (OsError (Chtimes newname)), l, w2)
                           else
                             (let w3 = (if FilenameTimeFormat l = []
                                        then w2\<lparr>entries := setModTime newname (now w2) (entries w2)\<rparr>
                                        else w2)
                              in case chown name w3 of
                                   Some e \<Rightarrow> (Some e, l, w3)
                                 | None \<Rightarrow> openTruncated name l w3)))))"

definition rotate :: "Logger \<Rightarrow> world \<Rightarrow> error option \<times> Logger \<times> world" where
  "rotate l w =
     (case close (l\<lparr>rotations := Suc (rotations l)\<rparr>) w of
        (Some e, l1) \<Rightarrow> (Some e, l1, w)
      | (None, l1) \<Rightarrow>
          (case openNew l1 w of
             (Some e, l2, w2) \<Rightarrow> (Some e, l2, w2)
           | (None, l2, w2) \<Rightarrow> (None, mill l2, w2)))"

definition openExistingOrNew :: "Logger \<Rightarrow> world \<Rightarrow> int \<Rightarrow> error option \<times> Logger \<times> world" where
  "openExistingOrNew l w writeLen =
     (let l1 = mill l; fname = Base (filename l w)
      in case osStat fname w of
           Inl e \<Rightarrow> if e = NotExist then openNew l1 w else (Some CantStatLog, l1, w)
         | Inr fi \<Rightarrow>
             if wrap64 (int (length (eData fi)) + writeLen) \<ge> max_l l1 writeLen
             then rotate l1 w
             else if fails w (OpenAppend fname) \<or> eIsDir fi then openNew l1 w
             else (None, l1\<lparr>l_file := Some fname, l_size := int (length (eData fi))\<rparr>, w))"

text \<open>
  \<^verbatim>\<open>n, err = l.file.Write(p)\<close> and \<^verbatim>\<open>l.size += int64(n)\<close>. A nil file gives
  \<^verbatim>\<open>ErrInvalid\<close>.
\<close>

definition appendData :: "string \<Rightarrow> string \<Rightarrow> time \<Rightarrow> dirent list \<Rightarrow> dirent list" where
  "appendData n d t es =
     map (\<lambda>e. if ename e = n then e\<lparr>eData := eData e @ d, eModTime := t\<rparr> else e) es"

definition fileWrite :: "Logger \<Rightarrow> world \<Rightarrow> string \<Rightarrow> nat \<times> error option \<times> Logger \<times> world" where
  "fileWrite l w p =
     (case l_file l of
        None \<Rightarrow> (0, Some ErrInvalid, l, w)
      | Some h \<Rightarrow>
          (let n = (case shortWrite w of None \<Rightarrow> length p | Some k \<Rightarrow> min k (length p));
               err = (case shortWrite w of None \<Rightarrow> None | Some k \<Rightarrow> Some ShortWrite)
           in (n, err, l\<lparr>l_size := wrap64 (l_size l + int n)\<rparr>,
               w\<lparr>entries := appendData h (take n p) (now w) (entries w)\<rparr>)))"

text \<open>\<^verbatim>\<open>Write\<close>; the mutex is not part of the model. The result is \<open>(n, err)\<close>.\<close>

definition Write :: "Logger \<Rightarrow> world \<Rightarrow> string \<Rightarrow> nat \<times> error option \<times> Logger \<times> world" where
  "Write l w p =
     (let writeLen = int (length p)
      in if writeLen > max_l l writeLen
         then (0, Some (WriteTooLong writeLen (max_l l writeLen)), l, w)
         else
           (case (if l_file l = None then openExistingOrNew l w writeLen else (None, l, w)) of
              (Some e, l1, w1) \<Rightarrow> (0, Some e, l1, w1)
            | (None, l1, w1) \<Rightarrow>
                (case (if wrap64 (l_size l1 + writeLen) > max_l l1 writeLen
                       then rotate l1 w1 else (None, l1, w1)) of
                   (Some e, l2, w2) \<Rightarrow> (0, Some e, l2, w2)
                 | (None, l2, w2) \<Rightarrow> fileWrite l2 w2 p)))"

subsection \<open>Sample configurations\<close>

text \<open>
  A regular file, a world in which no call fails (its clock layout is the decimal number
  of the time), and a Logger for \<^verbatim>\<open>/var/log/foo.log\<close> in ordinal mode with
  \<^verbatim>\<open>MaxBytes: 10\<close>.
\<close>

definition plainFile :: "string \<Rightarrow> time \<Rightarrow> string \<Rightarrow> dirent" where
  "plainFile n t d = \<lparr>ename = n, eIsDir = False, eModTime = t, eData = d\<rparr>"

definition quietWorld :: "dirent list \<Rightarrow> time \<Rightarrow> world" where
  "quietWorld es t =
     \<lparr>entries = es, now = t, fails = (\<lambda>c. False), shortWrite = None,
      timeParse = (\<lambda>layout v. Atoi v), timeFormat = (\<lambda>local layout t. fmt_d t),
      gzip = (\<lambda>d. ''gz:'' @ d), processLog = ''/tmp/prog.log'',
      solution = [], solution2 = [], solution3 = []\<rparr>"

definition fooLogger :: Logger where
  "fooLogger =
     \<lparr>Filename = ''/var/log/foo.log'', FilenameTimeFormat = [], MaxBytes = 10, MaxAge = 0,
      MaxBackups = 0, LocalTime = False, Compress = False,
      l_size = 0, l_file = None, l_millCh = False, rotations = 0\<rparr>"

section \<open>Properties\<close>

subsection \<open>64-bit arithmetic\<close>

lemma wrap64_id: "- (2 ^ 63) \<le> x \<Longrightarrow> x < 2 ^ 63 \<Longrightarrow> wrap64 x = x"
  by (simp add: wrap64_def)


subsection \<open>The writer\<close>

lemma Write_reject:
  "int (length p) > max_l l (int (length p)) \<Longrightarrow>
     Write l w p = (0, Some (WriteTooLong (int (length p)) (max_l l (int (length p)))), l, w)"
  by (simp add: Write_def Let_def)






text \<open>
  C1. A write whose length alone exceeds the effective maximum returns the
  length-exceeded error with \<open>n = 0\<close>; the Logger (tracked size, open handle, count of
  rotations, pending mill request) and the world (every file of the directory) are the
  ones it started from.
\<close>

theorem Write_too_long:
  "int (length p) > max_l l (int (length p)) \<Longrightarrow>
     Write l w p = (0, Some (WriteTooLong (int (length p)) (max_l l (int (length p)))), l, w)"
  by (rule Write_reject)

theorem Write_too_long_witness:
  "int (length ''booooooooooooooo!'') > max_l (fooLogger\<lparr>MaxBytes := 1\<rparr>) (int (length ''booooooooooooooo!''))
   \<and> Write (fooLogger\<lparr>MaxBytes := 1\<rparr>) (quietWorld [] 1000) ''booooooooooooooo!''
       = (0, Some (WriteTooLong 17 1), fooLogger\<lparr>MaxBytes := 1\<rparr>, quietWorld [] 1000)"
  using Write_too_long [of "fooLogger\<lparr>MaxBytes := 1\<rparr>" "''booooooooooooooo!''" "quietWorld [] 1000"]
  by (simp add: max_l_def fooLogger_def)






text \<open>
  C10. A configured \<^verbatim>\<open>MaxBytes\<close> below \<open>-1\<close> is itself the effective maximum, and
  every write, the empty one included, is rejected with the length-exceeded error, zero
  bytes written, Logger and world untouched.
\<close>

theorem Write_negative_MaxBytes:
  "MaxBytes l < - 1 \<Longrightarrow>
     max_l l (int (length p)) = MaxBytes l \<and>
     Write l w p = (0, Some (WriteTooLong (int (length p)) (MaxBytes l)), l, w)"
proof -
  assume a: "MaxBytes l < - 1"
  then have m: "max_l l (int (length p)) = MaxBytes l" by (simp add: max_l_def)
  with a have "int (length p) > max_l l (int (length p))" by simp
  from Write_reject [OF this] m show ?thesis by simp
qed

theorem Write_negative_MaxBytes_witness:
  "MaxBytes (fooLogger\<lparr>MaxBytes := - 2\<rparr>) < - 1 \<and>
   Write (fooLogger\<lparr>MaxBytes := - 2\<rparr>) (quietWorld [] 1000) []
     = (0, Some (WriteTooLong 0 (- 2)), fooLogger\<lparr>MaxBytes := - 2\<rparr>, quietWorld [] 1000)"
  using Write_negative_MaxBytes [of "fooLogger\<lparr>MaxBytes := - 2\<rparr>" "[]" "quietWorld [] 1000"]
  by (simp add: fooLogger_def)

subsection \<open>Compression\<close>

lemma lookup_None_iff: "lookup es n = None \<longleftrightarrow> n \<notin> set (map ename es)"
  by (induction es) (auto simp: lookup_def)

lemma lookup_Some_name: "lookup es n = Some e \<Longrightarrow> ename e = n \<and> e \<in> set es"
  by (induction es) (auto simp: lookup_def split: if_splits)

lemma lookup_removeEntry: "lookup (removeEntry n es) m = (if m = n then None else lookup es m)"
  by (induction es) (auto simp: lookup_def removeEntry_def)

lemma lookup_putFile_other: "m \<noteq> n \<Longrightarrow> lookup (putFile n d t es) m = lookup es m"
proof -
  assume a: "m \<noteq> n"
  have 1: "lookup (map (\<lambda>e. if ename e = n then e\<lparr>eData := d, eModTime := t\<rparr> else e) es) m = lookup es m"
    using a by (induction es) (auto simp: lookup_def)
  have 2: "lookup (es @ [\<lparr>ename = n, eIsDir = False, eModTime = t, eData = d\<rparr>]) m = lookup es m"
    using a by (induction es) (auto simp: lookup_def)
  show ?thesis using 1 2 by (simp add: putFile_def)
qed

lemma lookup_putFile_same:
  "lookup (putFile n d t es) n =
     Some (case lookup es n of
             None \<Rightarrow> \<lparr>ename = n, eIsDir = False, eModTime = t, eData = d\<rparr>
           | Some e \<Rightarrow> e\<lparr>eData := d, eModTime := t\<rparr>)"
proof (cases "n \<in> set (map ename es)")
  case True
  then have "lookup (map (\<lambda>e. if ename e = n then e\<lparr>eData := d, eModTime := t\<rparr> else e) es) n
      = Some (case lookup es n of
             None \<Rightarrow> \<lparr>ename = n, eIsDir = False, eModTime = t, eData = d\<rparr>
           | Some e \<Rightarrow> e\<lparr>eData := d, eModTime := t\<rparr>)"
    by (induction es) (auto simp: lookup_def)
  with True show ?thesis by (simp add: putFile_def)
next
  case False
  then have n: "lookup es n = None" by (simp add: lookup_None_iff)
  from False have "lookup (es @ [\<lparr>ename = n, eIsDir = False, eModTime = t, eData = d\<rparr>]) n
      = Some \<lparr>ename = n, eIsDir = False, eModTime = t, eData = d\<rparr>"
    by (induction es) (auto simp: lookup_def)
  with False n show ?thesis by (simp add: putFile_def)
qed

lemma names_lookup: "n \<in> names w \<longleftrightarrow> lookup (entries w) n \<noteq> None"
  by (simp add: names_def lookup_None_iff)

lemma gz_neq: "compressSuffix \<noteq> []" "src @ compressSuffix \<noteq> src" "src \<noteq> src @ compressSuffix"
  by (simp_all add: compressSuffix_def)

lemma osRemove_kept:
  "osRemove n w = (e, w') \<Longrightarrow>
     (n \<in> names w' \<longleftrightarrow> n \<in> names w \<and> fails w (Remove n))
     \<and> (\<forall>m. m \<noteq> n \<longrightarrow> lookup (entries w') m = lookup (entries w) m)"
  by (auto simp: osRemove_def names_lookup lookup_removeEntry split: if_splits)

text \<open>
  C6. A compression that fails in any way leaves the entry of the uncompressed backup as
  it was. It fails mid-compression (with \<open>FailedCompress\<close>) exactly when the source and
  the compressed file were opened and the copy, the close of the gzip writer, of the
  compressed file or of the source, or the removal of the source failed; then
  \<^verbatim>\<open>os.Remove(dst)\<close> is called with its result ignored, and the compressed file is in the
  directory afterwards exactly when that call fails. The source is gone only when the
  compression succeeded, and then the compressed file holds the whole gzip output.
\<close>

theorem compressLogFile_failure:
  fixes src :: string
  defines "dst \<equiv> src @ compressSuffix"
  shows
   "(fst (compressLogFile src dst w) \<noteq> None
       \<longrightarrow> lookup (entries (snd (compressLogFile src dst w))) src = lookup (entries w) src)
    \<and> ((\<exists>c. fst (compressLogFile src dst w) = Some (FailedCompress c))
       \<longleftrightarrow> (\<exists>f. lookup (entries w) src = Some f \<and> \<not> fails w (OpenRead src) \<and> \<not> fails w (Stat src)
              \<and> \<not> fails w (Chown dst) \<and> \<not> fails w (OpenTrunc dst) \<and> \<not> isDirectory w dst
              \<and> (fails w (Copy src) \<or> eIsDir f \<or> fails w (GzClose dst) \<or> fails w (CloseFile dst)
                   \<or> fails w (CloseFile src) \<or> fails w (Remove src))))
    \<and> ((\<exists>c. fst (compressLogFile src dst w) = Some (FailedCompress c))
       \<longrightarrow> (dst \<in> names (snd (compressLogFile src dst w)) \<longleftrightarrow> fails w (Remove dst)))
    \<and> (lookup (entries w) src \<noteq> None \<and> lookup (entries (snd (compressLogFile src dst w))) src = None
       \<longrightarrow> fst (compressLogFile src dst w) = None
           \<and> map_option eData (lookup (entries (snd (compressLogFile src dst w))) dst)
               = map_option (\<lambda>f. gzip w (eData f)) (lookup (entries w) src))"
  unfolding dst_def
  by (auto simp: compressLogFile_def giveUp_def osRemove_def chown_def Let_def names_lookup
      lookup_removeEntry lookup_putFile_other lookup_putFile_same gz_neq
      split: option.splits if_splits)

theorem compressLogFile_failure_witness:
  "(\<exists>c. fst (compressLogFile ''foo.log.1'' (''foo.log.1'' @ compressSuffix)
            ((quietWorld [plainFile ''foo.log.1'' 5 ''boo!''] 1000)\<lparr>fails := (\<lambda>c. c = GzClose ''foo.log.1.gz'')\<rparr>))
        = Some (FailedCompress c))
   \<and> ''foo.log.1'' @ compressSuffix
        \<notin> names (snd (compressLogFile ''foo.log.1'' (''foo.log.1'' @ compressSuffix)
            ((quietWorld [plainFile ''foo.log.1'' 5 ''boo!''] 1000)\<lparr>fails := (\<lambda>c. c = GzClose ''foo.log.1.gz'')\<rparr>)))
   \<and> lookup (entries (snd (compressLogFile ''foo.log.1'' (''foo.log.1'' @ compressSuffix)
            ((quietWorld [plainFile ''foo.log.1'' 5 ''boo!''] 1000)\<lparr>fails := (\<lambda>c. c = GzClose ''foo.log.1.gz'')\<rparr>))))
        ''foo.log.1'' = Some (plainFile ''foo.log.1'' 5 ''boo!'')
   \<and> fst (compressLogFile ''foo.log.1'' (''foo.log.1'' @ compressSuffix)
            (quietWorld [plainFile ''foo.log.1'' 5 ''boo!''] 1000)) = None
   \<and> map_option eData (lookup (entries (snd (compressLogFile ''foo.log.1'' (''foo.log.1'' @ compressSuffix)
            (quietWorld [plainFile ''foo.log.1'' 5 ''boo!''] 1000)))) (''foo.log.1'' @ compressSuffix))
        = Some ''gz:boo!''"
proof -
  let ?wf = "(quietWorld [plainFile ''foo.log.1'' 5 ''boo!''] 1000)\<lparr>fails := (\<lambda>c. c = GzClose ''foo.log.1.gz'')\<rparr>"
  let ?wk = "quietWorld [plainFile ''foo.log.1'' 5 ''boo!''] 1000"
  have gone: "lookup (entries (snd (compressLogFile ''foo.log.1'' (''foo.log.1'' @ compressSuffix) ?wk)))
                ''foo.log.1'' = None"
    by (simp add: compressLogFile_def quietWorld_def plainFile_def lookup_def chown_def
        isDirectory_def compressSuffix_def putFile_def osRemove_def removeEntry_def Let_def)
  have there: "lookup (entries ?wk) ''foo.log.1'' = Some (plainFile ''foo.log.1'' 5 ''boo!'')"
    "lookup (entries ?wf) ''foo.log.1'' = Some (plainFile ''foo.log.1'' 5 ''boo!'')"
    by (simp_all add: quietWorld_def plainFile_def lookup_def)
  have cond: "\<not> fails ?wf (OpenRead ''foo.log.1'') \<and> \<not> fails ?wf (Stat ''foo.log.1'')
      \<and> \<not> fails ?wf (Chown (''foo.log.1'' @ compressSuffix)) \<and> \<not> fails ?wf (OpenTrunc (''foo.log.1'' @ compressSuffix))
      \<and> \<not> isDirectory ?wf (''foo.log.1'' @ compressSuffix) \<and> fails ?wf (GzClose (''foo.log.1'' @ compressSuffix))
      \<and> \<not> fails ?wf (Remove (''foo.log.1'' @ compressSuffix))"
    by (simp add: quietWorld_def plainFile_def lookup_def isDirectory_def compressSuffix_def)
  from compressLogFile_failure [of "''foo.log.1''" ?wf] there(2) cond
  have f: "(\<exists>c. fst (compressLogFile ''foo.log.1'' (''foo.log.1'' @ compressSuffix) ?wf) = Some (FailedCompress c))
     \<and> ''foo.log.1'' @ compressSuffix \<notin> names (snd (compressLogFile ''foo.log.1'' (''foo.log.1'' @ compressSuffix) ?wf))
     \<and> lookup (entries (snd (compressLogFile ''foo.log.1'' (''foo.log.1'' @ compressSuffix) ?wf))) ''foo.log.1''
         = Some (plainFile ''foo.log.1'' 5 ''boo!'')"
    by auto
  from compressLogFile_failure [of "''foo.log.1''" ?wk] there(1) gone
  have k: "fst (compressLogFile ''foo.log.1'' (''foo.log.1'' @ compressSuffix) ?wk) = None
     \<and> map_option eData (lookup (entries (snd (compressLogFile ''foo.log.1'' (''foo.log.1'' @ compressSuffix) ?wk)))
          (''foo.log.1'' @ compressSuffix)) = Some ''gz:boo!''"
    by (simp add: plainFile_def quietWorld_def)
  from f k show ?thesis by blast
qed

theorem compressLogFile_partial_left:
  "fst (compressLogFile ''foo.log.1'' (''foo.log.1'' @ compressSuffix)
         ((quietWorld [plainFile ''foo.log.1'' 5 ''boo!''] 1000)
            \<lparr>fails := (\<lambda>c. c = GzClose ''foo.log.1.gz'' \<or> c = Remove ''foo.log.1.gz'')\<rparr>))
     = Some (FailedCompress (GzClose ''foo.log.1.gz''))
   \<and> map ename (entries (snd (compressLogFile ''foo.log.1'' (''foo.log.1'' @ compressSuffix)
         ((quietWorld [plainFile ''foo.log.1'' 5 ''boo!''] 1000)
            \<lparr>fails := (\<lambda>c. c = GzClose ''foo.log.1.gz'' \<or> c = Remove ''foo.log.1.gz'')\<rparr>))))
     = [''foo.log.1'', ''foo.log.1.gz'']"
  by code_simp

subsection \<open>The directory scan\<close>

lemma timeFromName_solution2 [simp]:
  "timeFromName l (w\<lparr>solution2 := x\<rparr>) n p e = timeFromName l w n p e"
  by (simp add: timeFromName_def split: option.splits)


lemma accepts_solution2 [simp]: "accepts l (w\<lparr>solution2 := x\<rparr>) p e n = accepts l w p e n"
  by (simp add: accepts_def)

text \<open>What one write of a name to \<^verbatim>\<open>/tmp/solution2.log\<close> adds.\<close>

lemma tmpAppend_one:
  "tmpAppend w path [n] ls
     = ls @ (if \<not> fails w (OpenTmp path) \<and> \<not> fails w (WriteTmp path n) then [n] else [])"
  by (simp add: tmpAppend_def)



lemma scanDir_result:
  "scanDir l p e fs acc w = (Inr files, w') \<Longrightarrow>
     map Name files = map Name acc @ [ename f. f \<leftarrow> fs, \<not> eIsDir f \<and> accepts l w p e (ename f)]
     \<and> solution2 w' = solution2 w
          @ [ename f. f \<leftarrow> fs, \<not> eIsDir f \<and> \<not> accepts l w p e (ename f)
                \<and> \<not> fails w (OpenTmp solution2Log) \<and> \<not> fails w (WriteTmp solution2Log (ename f))]"
proof (induction fs arbitrary: acc w)
  case Nil
  then show ?case by simp
next
  case (Cons f fs)
  show ?case
  proof (cases "eIsDir f")
    case True
    with Cons.prems have "scanDir l p e fs acc w = (Inr files, w')" by simp
    from Cons.IH [OF this] True show ?thesis by simp
  next
    case False
    show ?thesis
    proof (cases "accepts l w p e (ename f)")
      case True
      with False Cons.prems obtain t where
        "scanDir l p e fs (acc @ [\<lparr>timestamp = t, info = f\<rparr>]) w = (Inr files, w')"
        by (auto simp: accepts_def split: if_splits sum.splits)
      from Cons.IH [OF this] True False show ?thesis by (simp add: Name_def)
    next
      case True': False
      with False Cons.prems have
        "scanDir l p e fs acc (w\<lparr>solution2 := tmpAppend w solution2Log [ename f] (solution2 w)\<rparr>) = (Inr files, w')"
        by (auto simp: accepts_def split: if_splits sum.splits)
      from Cons.IH [OF this] True' False show ?thesis by (simp add: tmpAppend_one)
    qed
  qed
qed

lemma mset_insertByBirthTime: "mset (insertByBirthTime x ys) = add_mset x (mset ys)"
  by (induction ys) auto

lemma mset_byBirthTime: "mset (byBirthTime fs) = mset fs"
  unfolding byBirthTime_def by (induction fs) (auto simp: mset_insertByBirthTime)


lemma oldLogFiles_result:
  assumes "oldLogFiles l w = (Inr files, w')"
  shows "mset (map Name files)
           = mset [ename f. f \<leftarrow> entries w, \<not> eIsDir f \<and> classified l w (ename f)]"
    and "solution2 w' = solution2 w
          @ [ename f. f \<leftarrow> entries w, \<not> eIsDir f \<and> \<not> classified l w (ename f)
                \<and> \<not> fails w (OpenTmp solution2Log) \<and> \<not> fails w (WriteTmp solution2Log (ename f))]"
proof -
  obtain p e where pe: "prefixAndExt l w = (p, e)" by (cases "prefixAndExt l w") auto
  with assms obtain fs where sc: "scanDir l p e (entries w) [] w = (Inr fs, w')"
    and fl: "files = byBirthTime fs"
    by (auto simp: oldLogFiles_def split: if_splits prod.splits sum.splits)
  from scanDir_result [OF sc] pe
  have 1: "map Name fs = [ename f. f \<leftarrow> entries w, \<not> eIsDir f \<and> classified l w (ename f)]"
    and 2: "solution2 w' = solution2 w
          @ [ename f. f \<leftarrow> entries w, \<not> eIsDir f \<and> \<not> classified l w (ename f)
                \<and> \<not> fails w (OpenTmp solution2Log) \<and> \<not> fails w (WriteTmp solution2Log (ename f))]"
    by (simp_all add: classified_def)
  have "mset (map Name files) = image_mset Name (mset (byBirthTime fs))" using fl by simp
  also have "\<dots> = mset (map Name fs)" by (simp add: mset_byBirthTime)
  finally show "mset (map Name files)
           = mset [ename f. f \<leftarrow> entries w, \<not> eIsDir f \<and> classified l w (ename f)]"
    using 1 by simp
  show "solution2 w' = solution2 w
          @ [ename f. f \<leftarrow> entries w, \<not> eIsDir f \<and> \<not> classified l w (ename f)
                \<and> \<not> fails w (OpenTmp solution2Log) \<and> \<not> fails w (WriteTmp solution2Log (ename f))]"
    by (rule 2)
qed

subsection \<open>The retention pass\<close>































subsection \<open>Numbers in file names\<close>

lemma digit_val_digit_char: "0 \<le> d \<Longrightarrow> d < 10 \<Longrightarrow> digit_val (digit_char d) = Some d"
  by (simp add: digit_val_def digit_char_def of_char_of Let_def)

lemma digits_val_append:
  "digits_val (xs @ ys) acc = (case digits_val xs acc of None \<Rightarrow> None | Some a \<Rightarrow> digits_val ys a)"
  by (induction xs arbitrary: acc) (auto split: option.splits)

lemma digits_of_small: "n < 10 \<Longrightarrow> digits_of n = [digit_char n]"
  by (subst digits_of.simps) simp

lemma digits_of_large:
  "\<not> n < 10 \<Longrightarrow> digits_of n = digits_of (n div 10) @ [digit_char (n mod 10)]"
  by (subst digits_of.simps) simp

lemma digits_of_nonempty: "digits_of n \<noteq> []"
  by (cases "n < 10") (simp_all add: digits_of_small digits_of_large)

lemma digits_of_chars: "0 \<le> n \<Longrightarrow> c \<in> set (digits_of n) \<Longrightarrow> digit_val c \<noteq> None"
proof (induction n rule: digits_of.induct)
  case (1 n)
  show ?case
  proof (cases "n < 10")
    case True
    with "1.prems" show ?thesis
      by (simp add: digits_of_small digit_val_digit_char)
  next
    case False
    with "1.prems" have "c \<in> set (digits_of (n div 10)) \<or> c = digit_char (n mod 10)"
      by (auto simp: digits_of_large)
    then show ?thesis
    proof
      assume "c \<in> set (digits_of (n div 10))"
      with "1.IH" False "1.prems" show ?thesis by simp
    next
      assume "c = digit_char (n mod 10)"
      then show ?thesis by (simp add: digit_val_digit_char)
    qed
  qed
qed

lemma digits_val_digits_of:
  "0 \<le> n \<Longrightarrow> digits_val (digits_of n) acc = Some (acc * 10 ^ length (digits_of n) + n)"
proof (induction n arbitrary: acc rule: digits_of.induct)
  case (1 n)
  show ?case
  proof (cases "n < 10")
    case True
    with "1.prems" show ?thesis
      by (simp add: digits_of_small digit_val_digit_char)
  next
    case False
    with "1.prems" have ih: "\<And>acc. digits_val (digits_of (n div 10)) acc
        = Some (acc * 10 ^ length (digits_of (n div 10)) + n div 10)"
      using "1.IH" by simp
    have eq: "digits_of n = digits_of (n div 10) @ [digit_char (n mod 10)]"
      using False by (rule digits_of_large)
    have "(acc * 10 ^ length (digits_of (n div 10)) + n div 10) * 10 + n mod 10
            = acc * 10 ^ length (digits_of n) + n"
      by (simp add: eq algebra_simps)
    then show ?thesis
      by (simp add: eq digits_val_append ih digit_val_digit_char)
  qed
qed

lemma not_digit: "digit_val CHR ''-'' = None" "digit_val CHR ''+'' = None"
  "digit_val CHR ''.'' = None" "digit_val CHR ''/'' = None"
  by (simp_all add: digit_val_def)

lemma Atoi_fmt_d:
  assumes "- (2 ^ 63) \<le> k" "k < 2 ^ 63"
  shows "Atoi (fmt_d k) = Some k"
proof (cases "k < 0")
  case True
  then have "digits_val (digits_of (- k)) 0 = Some (- k)"
    using digits_val_digits_of [of "- k" 0] by simp
  with True assms show ?thesis
    by (simp add: Atoi_def fmt_d_def digits_of_nonempty)
next
  case False
  then have d: "digits_val (digits_of k) 0 = Some k"
    using digits_val_digits_of [of k 0] by simp
  have "hd (digits_of k) \<in> set (digits_of k)" by (simp add: digits_of_nonempty)
  with False have "digit_val (hd (digits_of k)) \<noteq> None" by (intro digits_of_chars) auto
  then have "hd (digits_of k) \<noteq> CHR ''-''" "hd (digits_of k) \<noteq> CHR ''+''"
    using not_digit by auto
  with False d assms show ?thesis
    by (simp add: Atoi_def fmt_d_def digits_of_nonempty)
qed

lemma fmt_d_chars: "c \<in> set (fmt_d k) \<Longrightarrow> c \<noteq> CHR ''.'' \<and> c \<noteq> CHR ''/''"
proof -
  assume c: "c \<in> set (fmt_d k)"
  show ?thesis
  proof (cases "k < 0")
    case True
    with c have "c = CHR ''-'' \<or> c \<in> set (digits_of (- k))" by (simp add: fmt_d_def)
    with True digits_of_chars [of "- k" c] not_digit show ?thesis by auto
  next
    case False
    with c have "c \<in> set (digits_of k)" by (simp add: fmt_d_def)
    with False digits_of_chars [of k c] not_digit show ?thesis by auto
  qed
qed

lemma Ext_dot:
  assumes "\<forall>c\<in>set ds. c \<noteq> CHR ''.'' \<and> c \<noteq> CHR ''/''"
  shows "Ext (p @ ''.'' @ ds) = ''.'' @ ds"
proof -
  let ?r = "takeWhile (\<lambda>c. \<not> IsPathSeparator c) (rev (p @ ''.'' @ ds))"
  have "takeWhile (\<lambda>c. \<not> IsPathSeparator c) (rev ds @ (CHR ''.'' # rev p))
          = rev ds @ takeWhile (\<lambda>c. \<not> IsPathSeparator c) (CHR ''.'' # rev p)"
    by (rule takeWhile_append2) (use assms in \<open>auto simp: IsPathSeparator_def\<close>)
  then have r: "?r = rev ds @ CHR ''.'' # takeWhile (\<lambda>c. \<not> IsPathSeparator c) (rev p)"
    by (simp add: IsPathSeparator_def)
  have "takeWhile (\<lambda>c. c \<noteq> CHR ''.'')
          (rev ds @ (CHR ''.'' # takeWhile (\<lambda>c. \<not> IsPathSeparator c) (rev p))) = takeWhile (\<lambda>c. c \<noteq> CHR ''.'') (rev ds)"
    by (rule takeWhile_tail) simp
  also have "\<dots> = rev ds" using assms by (simp add: takeWhile_eq_all_conv)
  finally have t: "takeWhile (\<lambda>c. c \<noteq> CHR ''.'') ?r = rev ds"
    unfolding r .
  show ?thesis
    unfolding Ext_def Let_def t using r by simp
qed

lemma orderFromName_fmt_d:
  assumes "- (2 ^ 63) \<le> k" "k < 2 ^ 63"
  shows "orderFromName (p @ ''.'' @ fmt_d k) p [] = Inr k"
proof -
  have "Ext (p @ ''.'' @ fmt_d k) = ''.'' @ fmt_d k"
    by (rule Ext_dot) (use fmt_d_chars in blast)
  then show ?thesis
    using Atoi_fmt_d [OF assms]
    by (simp add: orderFromName_def HasPrefix_def HasSuffix_def TrimPrefix_def)
qed


subsection \<open>The backup name\<close>

lemma maxBackupOrder_ge: "m \<le> maxBackupOrder p e fs m"
proof (induction fs arbitrary: m)
  case Nil
  then show ?case by simp
next
  case (Cons f fs)
  show ?case
  proof (cases "\<not> HasSuffix (Name f) compressSuffix")
    case True
    show ?thesis
    proof (cases "orderFromName (Name f) p e")
      case (Inl x)
      with True Cons.IH [of m] show ?thesis by simp
    next
      case (Inr k)
      with True Cons.IH [of m] Cons.IH [of k] show ?thesis
        by (cases "m < k") auto
    qed
  next
    case False
    with Cons.IH [of m] show ?thesis by simp
  qed
qed

lemma maxBackupOrder_upper:
  "f \<in> set fs \<Longrightarrow> \<not> HasSuffix (Name f) compressSuffix \<Longrightarrow> orderFromName (Name f) p e = Inr k
     \<Longrightarrow> k \<le> maxBackupOrder p e fs m"
proof (induction fs arbitrary: m)
  case Nil
  then show ?case by simp
next
  case (Cons g fs)
  show ?case
  proof (cases "f = g")
    case True
    with Cons.prems maxBackupOrder_ge [of k p e fs] maxBackupOrder_ge [of m p e fs]
    show ?thesis by (cases "m < k") auto
  next
    case False
    with Cons.prems have "f \<in> set fs" by simp
    from Cons.IH [OF this Cons.prems(2,3)] show ?thesis
      by (auto split: sum.splits)
  qed
qed

lemma maxBackupOrder_attained:
  "maxBackupOrder p e fs m = m
   \<or> (\<exists>f\<in>set fs. \<not> HasSuffix (Name f) compressSuffix
         \<and> orderFromName (Name f) p e = Inr (maxBackupOrder p e fs m))"
proof (induction fs arbitrary: m)
  case Nil
  then show ?case by simp
next
  case (Cons g fs)
  show ?case
  proof (cases "\<not> HasSuffix (Name g) compressSuffix")
    case True
    show ?thesis
    proof (cases "orderFromName (Name g) p e")
      case (Inl x)
      with True Cons.IH [of m] show ?thesis by auto
    next
      case (Inr k)
      show ?thesis
      proof (cases "m < k")
        case less: True
        with True Inr Cons.IH [of k] show ?thesis by auto
      next
        case False
        with True Inr Cons.IH [of m] show ?thesis by auto
      qed
    qed
  next
    case False
    with Cons.IH [of m] show ?thesis by auto
  qed
qed

lemma oldLogFiles_classified:
  assumes "fst (oldLogFiles l w) = Inr files" and "f \<in> set files"
  shows "classified l w (Name f)"
proof -
  obtain w' where o: "oldLogFiles l w = (Inr files, w')"
    using assms(1) by (cases "oldLogFiles l w") auto
  from assms(2) have "Name f \<in> set (map Name files)" by simp
  also have "set (map Name files) = set_mset (mset (map Name files))" by (simp only: set_mset_mset)
  also have "\<dots> = set_mset (mset [ename f. f \<leftarrow> entries w, \<not> eIsDir f \<and> classified l w (ename f)])"
    by (simp only: oldLogFiles_result(1) [OF o])
  also have "\<dots> = set [ename f. f \<leftarrow> entries w, \<not> eIsDir f \<and> classified l w (ename f)]"
    by (simp only: set_mset_mset)
  finally show ?thesis by auto
qed

text \<open>
  C7. In ordinal mode the name that \<^verbatim>\<open>backupName\<close> returns is the log's file name, a dot
  and \<open>N + 1\<close> in 64-bit arithmetic, where \<open>N\<close> is the greatest of \<open>0\<close> and the ordinals of
  the files that the scan returned and that do not end in the compressed suffix. When
  \<open>N\<close> is below the largest 64-bit value, the sum is exact and the name differs from the
  name of every such file.
\<close>

theorem backupName_ordinal:
  assumes "FilenameTimeFormat l = []"
    and "fst (backupName l w name (FilenameTimeFormat l) local) = Inr newname"
  shows "\<exists>files N. fst (oldLogFiles l w) = Inr files
      \<and> N = maxBackupOrder (Base (filename l w)) [] files 0
      \<and> 0 \<le> N
      \<and> (\<forall>f\<in>set files. \<not> HasSuffix (Name f) compressSuffix
            \<longrightarrow> (\<exists>k. orderFromName (Name f) (Base (filename l w)) [] = Inr k \<and> k \<le> N))
      \<and> (N = 0 \<or> (\<exists>f\<in>set files. \<not> HasSuffix (Name f) compressSuffix
                      \<and> orderFromName (Name f) (Base (filename l w)) [] = Inr N))
      \<and> newname = Base (filename l w) @ ''.'' @ fmt_d (wrap64 (N + 1))
      \<and> (N < 2 ^ 63 - 1
            \<longrightarrow> newname = Base (filename l w) @ ''.'' @ fmt_d (N + 1)
                \<and> (\<forall>f\<in>set files. \<not> HasSuffix (Name f) compressSuffix \<longrightarrow> Name f \<noteq> newname))"
proof -
  let ?p = "Base (filename l w)"
  have pe: "prefixAndExt l w = (?p, [])" using assms(1) by (simp add: prefixAndExt_def Let_def)
  obtain r w' where o: "oldLogFiles l w = (r, w')" by (cases "oldLogFiles l w") auto
  have "\<exists>files. r = Inr files
          \<and> newname = ?p @ ''.'' @ fmt_d (wrap64 (maxBackupOrder ?p [] files 0 + 1))"
  proof (cases r)
    case (Inl e)
    with assms pe o show ?thesis by (simp add: backupName_def)
  next
    case (Inr files)
    with assms pe o show ?thesis by (simp add: backupName_def)
  qed
  then obtain files where sc: "fst (oldLogFiles l w) = Inr files"
    and nn: "newname = ?p @ ''.'' @ fmt_d (wrap64 (maxBackupOrder ?p [] files 0 + 1))"
    using o by auto
  let ?N = "maxBackupOrder ?p [] files 0"
  have ge: "0 \<le> ?N" by (rule maxBackupOrder_ge)
  have ord: "\<exists>k. orderFromName (Name f) ?p [] = Inr k \<and> k \<le> ?N"
    if "f \<in> set files" "\<not> HasSuffix (Name f) compressSuffix" for f
  proof -
    from oldLogFiles_classified [OF sc that(1)] pe assms(1)
    have "\<not> isl (orderFromName (Name f) ?p [])" by (simp add: classified_def accepts_def)
    then obtain k where k: "orderFromName (Name f) ?p [] = Inr k"
      by (cases "orderFromName (Name f) ?p []") auto
    from maxBackupOrder_upper [OF that k] k show ?thesis by blast
  qed
  have att: "?N = 0 \<or> (\<exists>f\<in>set files. \<not> HasSuffix (Name f) compressSuffix
                      \<and> orderFromName (Name f) ?p [] = Inr ?N)"
    by (rule maxBackupOrder_attained)
  have fresh: "newname = ?p @ ''.'' @ fmt_d (?N + 1)
                \<and> (\<forall>f\<in>set files. \<not> HasSuffix (Name f) compressSuffix \<longrightarrow> Name f \<noteq> newname)"
    if small: "?N < 2 ^ 63 - 1"
  proof -
    from small ge have w: "wrap64 (?N + 1) = ?N + 1" by (intro wrap64_id) auto
    from small ge have "orderFromName (?p @ ''.'' @ fmt_d (?N + 1)) ?p [] = Inr (?N + 1)"
      by (intro orderFromName_fmt_d) auto
    with nn w have on: "orderFromName newname ?p [] = Inr (?N + 1)" by simp
    have "Name f \<noteq> newname" if "f \<in> set files" "\<not> HasSuffix (Name f) compressSuffix" for f
    proof
      assume "Name f = newname"
      with ord [OF that] on show False by auto
    qed
    with nn w show ?thesis by simp
  qed
  show ?thesis
  proof (rule exI [of _ files], rule exI [of _ "?N"], intro conjI)
    show "fst (oldLogFiles l w) = Inr files" by (rule sc)
    show "?N = maxBackupOrder ?p [] files 0" by (rule refl)
    show "0 \<le> ?N" by (rule ge)
    show "\<forall>f\<in>set files. \<not> HasSuffix (Name f) compressSuffix
            \<longrightarrow> (\<exists>k. orderFromName (Name f) ?p [] = Inr k \<and> k \<le> ?N)"
      using ord by blast
    show "?N = 0 \<or> (\<exists>f\<in>set files. \<not> HasSuffix (Name f) compressSuffix
                      \<and> orderFromName (Name f) ?p [] = Inr ?N)"
      by (rule att)
    show "newname = ?p @ ''.'' @ fmt_d (wrap64 (?N + 1))" by (rule nn)
    show "?N < 2 ^ 63 - 1
            \<longrightarrow> newname = ?p @ ''.'' @ fmt_d (?N + 1)
                \<and> (\<forall>f\<in>set files. \<not> HasSuffix (Name f) compressSuffix \<longrightarrow> Name f \<noteq> newname)"
      using fresh by blast
  qed
qed


theorem backupName_ordinal_witness:
  "FilenameTimeFormat fooLogger = []
   \<and> fst (backupName fooLogger
          (quietWorld [plainFile ''foo.log'' 9 ''d'', plainFile ''foo.log.1'' 5 ''a'',
                       plainFile ''foo.log.2.gz'' 6 ''b'', plainFile ''foo.log.3'' 7 ''c''] 1000)
          ''foo.log'' (FilenameTimeFormat fooLogger) False) = Inr ''foo.log.4''
   \<and> fst (oldLogFiles fooLogger
          (quietWorld [plainFile ''foo.log'' 9 ''d'', plainFile ''foo.log.1'' 5 ''a'',
                       plainFile ''foo.log.2.gz'' 6 ''b'', plainFile ''foo.log.3'' 7 ''c''] 1000))
       = Inr [\<lparr>timestamp = 7, info = plainFile ''foo.log.3'' 7 ''c''\<rparr>,
              \<lparr>timestamp = 5, info = plainFile ''foo.log.1'' 5 ''a''\<rparr>]
   \<and> ''foo.log.4'' \<notin> Name ` set [\<lparr>timestamp = 7, info = plainFile ''foo.log.3'' 7 ''c''\<rparr>,
                                   \<lparr>timestamp = 5, info = plainFile ''foo.log.1'' 5 ''a''\<rparr>]"
proof -
  let ?w = "quietWorld [plainFile ''foo.log'' 9 ''d'', plainFile ''foo.log.1'' 5 ''a'',
                       plainFile ''foo.log.2.gz'' 6 ''b'', plainFile ''foo.log.3'' 7 ''c''] 1000"
  let ?files = "[\<lparr>timestamp = 7, info = plainFile ''foo.log.3'' 7 ''c''\<rparr>,
                 \<lparr>timestamp = 5, info = plainFile ''foo.log.1'' 5 ''a''\<rparr>]"
  have h1: "FilenameTimeFormat fooLogger = []" by (simp add: fooLogger_def)
  have h2: "fst (backupName fooLogger ?w ''foo.log'' (FilenameTimeFormat fooLogger) False) = Inr ''foo.log.4''"
    by code_simp
  have sc: "fst (oldLogFiles fooLogger ?w) = Inr ?files" by code_simp
  have n: "maxBackupOrder (Base (filename fooLogger ?w)) [] ?files 0 = 3" by code_simp
  have gz: "\<not> HasSuffix (Name \<lparr>timestamp = 7, info = plainFile ''foo.log.3'' 7 ''c''\<rparr>) compressSuffix"
    "\<not> HasSuffix (Name \<lparr>timestamp = 5, info = plainFile ''foo.log.1'' 5 ''a''\<rparr>) compressSuffix"
    by code_simp+
  from backupName_ordinal [OF h1 h2] obtain files N where
    f: "fst (oldLogFiles fooLogger ?w) = Inr files"
    and N: "N = maxBackupOrder (Base (filename fooLogger ?w)) [] files 0"
    and d: "N < 2 ^ 63 - 1 \<longrightarrow> (\<forall>f\<in>set files. \<not> HasSuffix (Name f) compressSuffix \<longrightarrow> Name f \<noteq> ''foo.log.4'')"
    by blast
  from f sc have ff: "files = ?files" by simp
  with N n have "N = 3" by simp
  with d ff gz have "''foo.log.4'' \<notin> Name ` set ?files" by auto
  with h1 h2 sc show ?thesis by blast
qed

theorem backupName_wraps:
  "fst (oldLogFiles fooLogger
          (quietWorld [plainFile ''foo.log'' 9 ''d'', plainFile ''foo.log.-9223372036854775808'' 5 ''a'',
                       plainFile ''foo.log.9223372036854775807'' 6 ''b''] 1000))
     = Inr [\<lparr>timestamp = 6, info = plainFile ''foo.log.9223372036854775807'' 6 ''b''\<rparr>,
            \<lparr>timestamp = 5, info = plainFile ''foo.log.-9223372036854775808'' 5 ''a''\<rparr>]
   \<and> orderFromName ''foo.log.9223372036854775807'' ''foo.log'' [] = Inr 9223372036854775807
   \<and> orderFromName ''foo.log.-9223372036854775808'' ''foo.log'' [] = Inr (- 9223372036854775808)
   \<and> \<not> HasSuffix ''foo.log.-9223372036854775808'' compressSuffix
   \<and> fst (backupName fooLogger
          (quietWorld [plainFile ''foo.log'' 9 ''d'', plainFile ''foo.log.-9223372036854775808'' 5 ''a'',
                       plainFile ''foo.log.9223372036854775807'' 6 ''b''] 1000)
          ''foo.log'' [] False) = Inr ''foo.log.-9223372036854775808''
   \<and> ''foo.log.-9223372036854775808'' \<noteq> ''foo.log'' @ ''.'' @ fmt_d (9223372036854775807 + 1)"
  by code_simp

text \<open>
  C3. In ordinal mode the scan does not classify a backup that carries the compressed
  suffix: of \<^verbatim>\<open>foo.log.1\<close>, \<^verbatim>\<open>foo.log.1.gz\<close> and \<^verbatim>\<open>foo.log.2.gz\<close> it returns the first
  only and writes the other two to \<^verbatim>\<open>/tmp/solution2.log\<close> as unclassified, although
  \<^verbatim>\<open>orderFromName\<close> with the extension \<^verbatim>\<open>.gz\<close> (the call that is commented out in
  \<^verbatim>\<open>oldLogFiles\<close>) reads their ordinals. In timestamp mode both forms are returned.
\<close>

theorem oldLogFiles_ordinal_misses_gz:
  "fst (oldLogFiles fooLogger
          (quietWorld [plainFile ''foo.log.1'' 5 ''a'', plainFile ''foo.log.1.gz'' 6 ''b'',
                       plainFile ''foo.log.2.gz'' 7 ''c''] 1000))
     = Inr [\<lparr>timestamp = 5, info = plainFile ''foo.log.1'' 5 ''a''\<rparr>]
   \<and> solution2 (snd (oldLogFiles fooLogger
          (quietWorld [plainFile ''foo.log.1'' 5 ''a'', plainFile ''foo.log.1.gz'' 6 ''b'',
                       plainFile ''foo.log.2.gz'' 7 ''c''] 1000)))
     = [''foo.log.1.gz'', ''foo.log.2.gz'']
   \<and> orderFromName ''foo.log.2.gz'' ''foo.log'' compressSuffix = Inr 2
   \<and> fst (oldLogFiles (fooLogger\<lparr>FilenameTimeFormat := ''ns''\<rparr>)
          (quietWorld [plainFile ''foo-5.log'' 5 ''a'', plainFile ''foo-5.log.gz'' 6 ''b'',
                       plainFile ''foo-7.log.gz'' 7 ''c''] 1000))
     = Inr [\<lparr>timestamp = 7, info = plainFile ''foo-7.log.gz'' 7 ''c''\<rparr>,
            \<lparr>timestamp = 5, info = plainFile ''foo-5.log'' 5 ''a''\<rparr>,
            \<lparr>timestamp = 5, info = plainFile ''foo-5.log.gz'' 6 ''b''\<rparr>]"
  by code_simp

text \<open>
  C2. In ordinal mode with \<^verbatim>\<open>MaxBackups: 1\<close>, a pass over the backups
  \<^verbatim>\<open>foo.log.1.gz\<close>, \<^verbatim>\<open>foo.log.2.gz\<close>, \<^verbatim>\<open>foo.log.3\<close> and \<^verbatim>\<open>foo.log.4\<close> returns no error,
  removes \<^verbatim>\<open>foo.log.3\<close> only, and leaves three backups in the directory.
\<close>

theorem millRunOnce_ordinal_keeps_gz:
  "fst (millRunOnce (fooLogger\<lparr>MaxBackups := 1\<rparr>)
          (quietWorld [plainFile ''foo.log'' 9 ''e'', plainFile ''foo.log.1.gz'' 5 ''a'',
                       plainFile ''foo.log.2.gz'' 6 ''b'', plainFile ''foo.log.3'' 7 ''c'',
                       plainFile ''foo.log.4'' 8 ''d''] 1000)) = None
   \<and> map ename (entries (snd (millRunOnce (fooLogger\<lparr>MaxBackups := 1\<rparr>)
          (quietWorld [plainFile ''foo.log'' 9 ''e'', plainFile ''foo.log.1.gz'' 5 ''a'',
                       plainFile ''foo.log.2.gz'' 6 ''b'', plainFile ''foo.log.3'' 7 ''c'',
                       plainFile ''foo.log.4'' 8 ''d''] 1000))))
     = [''foo.log'', ''foo.log.1.gz'', ''foo.log.2.gz'', ''foo.log.4'']"
  by code_simp

end
